theory Spec2Isabelle
  imports Main "HOL-Library.AList"
begin

section \<open>Python's \<^verbatim>\<open>decimal\<close> numbers, as far as the verifier uses them\<close>

text \<open>
  The source works on \<^verbatim>\<open>decimal.Decimal\<close> values in the default context:
  precision 28, rounding ROUND_HALF_EVEN, Emax 999999, Emin -999999, clamp 0, with the
  traps InvalidOperation, DivisionByZero and Overflow enabled. A finite decimal is
  sign, coefficient and exponent, of value \<open>(-1)^sign * coeff * 10^exp\<close>. A quiet NaN
  keeps neither sign nor payload here: nothing below reads them.
\<close>

datatype error = InvalidOperation | DivisionByZero | Overflow | TypeError

datatype decimal = Dec bool nat int | Infinity bool | NaN | SNaN

definition prec :: nat where
  "prec = 28"

definition Emax :: int where
  "Emax = 999999"

definition Emin :: int where
  "Emin = - 999999"

definition Etiny :: int where
  "Etiny = Emin - int prec + 1"

definition Etop :: int where
  "Etop = Emax - int prec + 1"

text \<open>\<^verbatim>\<open>len(str(n))\<close>: the number of decimal digits of a coefficient.\<close>

fun ndigits :: "nat \<Rightarrow> nat" where
  "ndigits n = (if n < 10 then 1 else Suc (ndigits (n div 10)))"

declare ndigits.simps [simp del]

text \<open>
  Dropping the last \<open>k\<close> digits of a coefficient: ROUND_HALF_EVEN (the context's rounding)
  and ROUND_HALF_UP (a discarded part of one half or more rounds away from zero).
\<close>

definition round_half_even :: "nat \<Rightarrow> nat \<Rightarrow> nat" where
  "round_half_even c k =
     (let q = c div 10 ^ k; r = c mod 10 ^ k
      in if 10 ^ k < 2 * r \<or> (2 * r = 10 ^ k \<and> odd q) then q + 1 else q)"

definition round_half_up :: "nat \<Rightarrow> nat \<Rightarrow> nat" where
  "round_half_up c k =
     (let q = c div 10 ^ k; r = c mod 10 ^ k
      in if 10 ^ k \<le> 2 * r then q + 1 else q)"

text \<open>
  \<^verbatim>\<open>Decimal._fix\<close>: round a result to the context. A zero has its exponent clamped;
  a coefficient of more than \<open>prec\<close> digits is rounded half-even; a result above Emax
  raises Overflow; a result below Emin is rounded at Etiny (Underflow is not trapped).
\<close>

definition dec_fix :: "decimal \<Rightarrow> error + decimal" where
  "dec_fix d =
     (case d of
        Dec s c e \<Rightarrow>
          if c = 0 then Inr (Dec s 0 (min (max e Etiny) Emax))
          else
            let exp_min0 = int (ndigits c) + e - int prec in
            if Etop < exp_min0 then Inl Overflow
            else
              let exp_min = (if exp_min0 < Etiny then Etiny else exp_min0) in
              if e < exp_min then
                let coeff = round_half_even c (nat (exp_min - e)) in
                if prec < ndigits coeff then
                  (if Etop < exp_min + 1 then Inl Overflow
                   else Inr (Dec s (coeff div 10) (exp_min + 1)))
                else Inr (Dec s coeff exp_min)
              else Inr d
      | _ \<Rightarrow> Inr d)"

text \<open>
  \<^verbatim>\<open>Decimal.__truediv__\<close>. An exact quotient is brought as close to the ideal
  exponent as its trailing zeros allow; an inexact one gets a sticky last digit and is
  rounded by \<open>dec_fix\<close>.
\<close>

function strip_zeros :: "nat \<Rightarrow> int \<Rightarrow> int \<Rightarrow> nat \<times> int" where
  "strip_zeros coeff ex ideal_exp =
     (if ex < ideal_exp \<and> coeff mod 10 = 0
      then strip_zeros (coeff div 10) (ex + 1) ideal_exp
      else (coeff, ex))"
  by pat_completeness auto
termination
  by (relation "measure (\<lambda>(c, e, i). nat (i - e))") auto

declare strip_zeros.simps [simp del]

definition div_coeff :: "nat \<Rightarrow> int \<Rightarrow> nat \<Rightarrow> int \<Rightarrow> nat \<times> int" where
  "div_coeff c1 e1 c2 e2 =
     (let shift = int (ndigits c2) - int (ndigits c1) + int prec + 1;
          ex = e1 - e2 - shift;
          n = (if 0 \<le> shift then c1 * 10 ^ nat shift else c1);
          m = (if 0 \<le> shift then c2 else c2 * 10 ^ nat (- shift));
          coeff = n div m;
          remainder = n mod m
      in if remainder \<noteq> 0
         then (if coeff mod 5 = 0 then (coeff + 1, ex) else (coeff, ex))
         else strip_zeros coeff ex (e1 - e2))"

fun dec_div :: "decimal \<Rightarrow> decimal \<Rightarrow> error + decimal" where
  "dec_div SNaN _ = Inl InvalidOperation"
| "dec_div _ SNaN = Inl InvalidOperation"
| "dec_div NaN _ = Inr NaN"
| "dec_div _ NaN = Inr NaN"
| "dec_div (Infinity s1) (Infinity s2) = Inl InvalidOperation"
| "dec_div (Infinity s1) (Dec s2 c2 e2) = Inr (Infinity (s1 \<noteq> s2))"
| "dec_div (Dec s1 c1 e1) (Infinity s2) = Inr (Dec (s1 \<noteq> s2) 0 Etiny)"
| "dec_div (Dec s1 c1 e1) (Dec s2 c2 e2) =
     (if c2 = 0 then (if c1 = 0 then Inl InvalidOperation else Inl DivisionByZero)
      else if c1 = 0 then dec_fix (Dec (s1 \<noteq> s2) 0 (e1 - e2))
      else case div_coeff c1 e1 c2 e2 of (coeff, ex) \<Rightarrow> dec_fix (Dec (s1 \<noteq> s2) coeff ex))"

text \<open>
  \<^verbatim>\<open>Decimal.quantize(exp, rounding=ROUND_HALF_UP)\<close>: the value at the exponent of
  \<open>exp\<close>. It raises InvalidOperation when one operand only is infinite and when the
  result would need more than \<open>prec\<close> digits.
\<close>

definition rescale_half_up :: "nat \<Rightarrow> int \<Rightarrow> int \<Rightarrow> nat" where
  "rescale_half_up c e e2 =
     (if e2 \<le> e then c * 10 ^ nat (e - e2) else round_half_up c (nat (e2 - e)))"

fun quantize :: "decimal \<Rightarrow> decimal \<Rightarrow> error + decimal" where
  "quantize SNaN _ = Inl InvalidOperation"
| "quantize _ SNaN = Inl InvalidOperation"
| "quantize NaN _ = Inr NaN"
| "quantize _ NaN = Inr NaN"
| "quantize (Infinity s1) (Infinity s2) = Inr (Infinity s1)"
| "quantize (Infinity s1) (Dec s2 c2 e2) = Inl InvalidOperation"
| "quantize (Dec s1 c1 e1) (Infinity s2) = Inl InvalidOperation"
| "quantize (Dec s c e) (Dec s2 c2 e2) =
     (if \<not> (Etiny \<le> e2 \<and> e2 \<le> Emax) then Inl InvalidOperation
      else if c = 0 then dec_fix (Dec s 0 e2)
      else if Emax < int (ndigits c) + e - 1 then Inl InvalidOperation
      else if int prec < int (ndigits c) + e - 1 - e2 + 1 then Inl InvalidOperation
      else
        let c' = rescale_half_up c e e2 in
        if Emax < e2 + int (ndigits c') - 1 then Inl InvalidOperation
        else if prec < ndigits c' then Inl InvalidOperation
        else dec_fix (Dec s c' e2))"

text \<open>
  Comparison. \<^verbatim>\<open>==\<close> and \<^verbatim>\<open>!=\<close> signal on a signalling NaN; a quiet NaN is
  unequal to everything, itself included; finite decimals compare by value.
\<close>

definition signed_coeff :: "bool \<Rightarrow> nat \<Rightarrow> int" where
  "signed_coeff s c = (if s then - int c else int c)"

fun dec_eq :: "decimal \<Rightarrow> decimal \<Rightarrow> error + bool" where
  "dec_eq SNaN _ = Inl InvalidOperation"
| "dec_eq _ SNaN = Inl InvalidOperation"
| "dec_eq NaN _ = Inr False"
| "dec_eq _ NaN = Inr False"
| "dec_eq (Infinity s1) (Infinity s2) = Inr (s1 = s2)"
| "dec_eq (Infinity s1) (Dec s2 c2 e2) = Inr False"
| "dec_eq (Dec s1 c1 e1) (Infinity s2) = Inr False"
| "dec_eq (Dec s1 c1 e1) (Dec s2 c2 e2) =
     Inr (signed_coeff s1 c1 * 10 ^ nat (e1 - min e1 e2)
          = signed_coeff s2 c2 * 10 ^ nat (e2 - min e1 e2))"

definition dec_ne :: "decimal \<Rightarrow> decimal \<Rightarrow> error + bool" where
  "dec_ne a b = (case dec_eq a b of Inl err \<Rightarrow> Inl err | Inr r \<Rightarrow> Inr (\<not> r))"

text \<open>
  \<^verbatim>\<open>Decimal.__sub__\<close> is the addition of the negated operand; the sum of two finite
  decimals is the exact sum at the smaller exponent, rounded by \<open>dec_fix\<close>. A zero sum
  of non-zero operands is positive; a sum of two zeros is negative when both are.
\<close>

fun dec_neg :: "decimal \<Rightarrow> decimal" where
  "dec_neg (Dec s c e) = Dec (\<not> s) c e"
| "dec_neg (Infinity s) = Infinity (\<not> s)"
| "dec_neg d = d"

fun dec_add :: "decimal \<Rightarrow> decimal \<Rightarrow> error + decimal" where
  "dec_add SNaN _ = Inl InvalidOperation"
| "dec_add _ SNaN = Inl InvalidOperation"
| "dec_add NaN _ = Inr NaN"
| "dec_add _ NaN = Inr NaN"
| "dec_add (Infinity s1) (Infinity s2) =
     (if s1 = s2 then Inr (Infinity s1) else Inl InvalidOperation)"
| "dec_add (Infinity s1) (Dec s2 c2 e2) = Inr (Infinity s1)"
| "dec_add (Dec s1 c1 e1) (Infinity s2) = Inr (Infinity s2)"
| "dec_add (Dec s1 c1 e1) (Dec s2 c2 e2) =
     (let ex = min e1 e2;
          total = signed_coeff s1 c1 * 10 ^ nat (e1 - ex)
                + signed_coeff s2 c2 * 10 ^ nat (e2 - ex)
      in if c1 = 0 \<and> c2 = 0 then dec_fix (Dec (s1 \<and> s2) 0 ex)
         else if total = 0 then dec_fix (Dec False 0 ex)
         else dec_fix (Dec (total < 0) (nat \<bar>total\<bar>) ex))"

definition dec_sub :: "decimal \<Rightarrow> decimal \<Rightarrow> error + decimal" where
  "dec_sub a b = dec_add a (dec_neg b)"

section \<open>Strings and raw cell values\<close>

text \<open>
  Strings are ASCII here: \<^verbatim>\<open>str.strip\<close> removes the ASCII characters for which
  \<^verbatim>\<open>str.isspace\<close> holds, and a digit is one of \<^verbatim>\<open>0\<close> to \<^verbatim>\<open>9\<close>.
\<close>

definition is_space :: "char \<Rightarrow> bool" where
  "is_space c = ((of_char c :: nat) \<in> {9, 10, 11, 12, 13, 28, 29, 30, 31, 32})"

definition strip :: "string \<Rightarrow> string" where
  "strip s = rev (dropWhile is_space (rev (dropWhile is_space s)))"

definition replace_char :: "char \<Rightarrow> string \<Rightarrow> string \<Rightarrow> string" where
  "replace_char old new s = concat (map (\<lambda>c. if c = old then new else [c]) s)"

definition is_digit :: "char \<Rightarrow> bool" where
  "is_digit c = (48 \<le> (of_char c :: nat) \<and> (of_char c :: nat) \<le> 57)"

definition digit_val :: "char \<Rightarrow> nat" where
  "digit_val c = of_char c - 48"

definition nat_of_digits :: "string \<Rightarrow> nat" where
  "nat_of_digits ds = foldl (\<lambda>n c. 10 * n + digit_val c) 0 ds"

definition lower :: "char \<Rightarrow> char" where
  "lower c =
     (case map_of (zip ''ABCDEFGHIJKLMNOPQRSTUVWXYZ'' ''abcdefghijklmnopqrstuvwxyz'') c of
        None \<Rightarrow> c
      | Some l \<Rightarrow> l)"

text \<open>\<^verbatim>\<open>str(n)\<close> of an integer.\<close>

definition digit_char :: "nat \<Rightarrow> char" where
  "digit_char n = ''0123456789'' ! n"

fun str_nat :: "nat \<Rightarrow> string" where
  "str_nat n =
     (if n < 10 then [digit_char n]
      else str_nat (n div 10) @ [digit_char (n mod 10)])"

declare str_nat.simps [simp del]

definition str_int :: "int \<Rightarrow> string" where
  "str_int i = (if i < 0 then CHR ''-'' # str_nat (nat (- i)) else str_nat (nat i))"

text \<open>
  The constructor \<^verbatim>\<open>Decimal(s)\<close> of a string: surrounding whitespace and
  underscores are removed, then the text is an optional sign followed by a number
  (digits with an optional point and an optional exponent, at least one digit), an
  infinity or a NaN, in any letter case. No context rounding applies. Anything else
  raises InvalidOperation; so does, in CPython's implementation on 64 bits, a number
  that its largest context cannot hold exactly (\<open>representable\<close>).
\<close>

definition MAX_EMAX :: int where
  "MAX_EMAX = 999999999999999999"

definition MIN_ETINY :: int where
  "MIN_ETINY = - 1999999999999999997"

definition representable :: "nat \<Rightarrow> int \<Rightarrow> bool" where
  "representable c e =
     (MIN_ETINY \<le> e
      \<and> (if c = 0 then e \<le> MAX_EMAX else int (ndigits c) + e - 1 \<le> MAX_EMAX))"

definition parse_exponent :: "string \<Rightarrow> int option" where
  "parse_exponent s =
     (let (neg, ds) = (case s of
                         c # r \<Rightarrow> if c = CHR ''-'' then (True, r)
                                  else if c = CHR ''+'' then (False, r) else (False, s)
                       | [] \<Rightarrow> (False, s))
      in if ds \<noteq> [] \<and> list_all is_digit ds
         then Some (if neg then - int (nat_of_digits ds) else int (nat_of_digits ds))
         else None)"

definition parse_number :: "string \<Rightarrow> (nat \<times> int) option" where
  "parse_number s =
     (let intpart = takeWhile is_digit s;
          r1 = dropWhile is_digit s;
          (fracpart, r2) = (case r1 of
                              c # t \<Rightarrow> if c = CHR ''.''
                                       then (takeWhile is_digit t, dropWhile is_digit t)
                                       else ([], r1)
                            | [] \<Rightarrow> ([], r1))
      in if intpart = [] \<and> fracpart = [] then None
         else (case r2 of
                 [] \<Rightarrow> Some (nat_of_digits (intpart @ fracpart), - int (length fracpart))
               | c # t \<Rightarrow>
                   if c = CHR ''e''
                   then (case parse_exponent t of
                           None \<Rightarrow> None
                         | Some ex \<Rightarrow> Some (nat_of_digits (intpart @ fracpart),
                                            ex - int (length fracpart)))
                   else None))"

definition Decimal_of_str :: "string \<Rightarrow> error + decimal" where
  "Decimal_of_str value =
     (let t = map lower (filter (\<lambda>c. c \<noteq> CHR ''_'') (strip value));
          (sign, r) = (case t of
                         c # u \<Rightarrow> if c = CHR ''-'' then (True, u)
                                  else if c = CHR ''+'' then (False, u) else (False, t)
                       | [] \<Rightarrow> (False, t))
      in if r = ''inf'' \<or> r = ''infinity'' then Inr (Infinity sign)
         else if take 3 r = ''nan'' \<and> list_all is_digit (drop 3 r) then Inr NaN
         else if take 4 r = ''snan'' \<and> list_all is_digit (drop 4 r) then Inr SNaN
         else (case parse_number r of
                 None \<Rightarrow> Inl InvalidOperation
               | Some (c, e) \<Rightarrow>
                   if representable c e then Inr (Dec sign c e)
                   else Inl InvalidOperation))"

text \<open>
  A cell value as openpyxl hands it over. The source reads three things of it: whether
  it is \<^verbatim>\<open>None\<close> (an empty cell), its truth value, and the text \<^verbatim>\<open>str()\<close>
  prints for it. An integer and a text have their own constructors; any other value
  (a float, a boolean, a date) is given by its truth value and its text, so a float
  0.0 is \<open>VOther False ''0.0''\<close> and 51.0 is \<open>VOther True ''51.0''\<close>.
\<close>

datatype cell_value = VInt int | VText string | VOther bool string

type_synonym cell = "cell_value option"

fun py_str :: "cell_value \<Rightarrow> string" where
  "py_str (VInt i) = str_int i"
| "py_str (VText s) = s"
| "py_str (VOther t s) = s"

fun truthy :: "cell \<Rightarrow> bool" where
  "truthy None = False"
| "truthy (Some (VInt i)) = (i \<noteq> 0)"
| "truthy (Some (VText s)) = (s \<noteq> [])"
| "truthy (Some (VOther t s)) = t"

section \<open>The helper functions of the source\<close>

definition BGN_TO_EUR_DIVISOR :: decimal where
  "BGN_TO_EUR_DIVISOR = Dec False 195583 (- 5)"

definition TWO_PLACES :: decimal where
  "TWO_PLACES = Dec False 1 (- 2)"

definition cleaned_str :: "string \<Rightarrow> string" where
  "cleaned_str number_str =
     replace_char (CHR '','') ''.'' (replace_char (CHR '' '') [] number_str)"

definition parse_decimal :: "cell \<Rightarrow> decimal option" where
  "parse_decimal number_str =
     (case number_str of
        None \<Rightarrow> None
      | Some v \<Rightarrow>
          (case Decimal_of_str (cleaned_str (py_str v)) of
             Inl err \<Rightarrow> None
           | Inr d \<Rightarrow> Some d))"

text \<open>
  \<open>normalize_decimal\<close> is \<^verbatim>\<open>normalize\<close> of the source, a name HOL has taken; it
  raises what \<^verbatim>\<open>quantize\<close> raises.
\<close>

definition normalize_decimal :: "decimal \<Rightarrow> error + decimal" where
  "normalize_decimal d = quantize d TWO_PLACES"

text \<open>
  \<open>verify_row_body\<close> is the block under \<^verbatim>\<open>try\<close>, every raise a value \<open>Inl\<close>;
  \<open>verify_row\<close> adds the handler \<^verbatim>\<open>except Exception\<close>.
\<close>

definition verify_row_body ::
  "decimal option \<Rightarrow> decimal option \<Rightarrow> error + (bool \<times> decimal option \<times> decimal option)" where
  "verify_row_body bgn_val eur_val =
     (case bgn_val of
        None \<Rightarrow> Inr (False, None, None)
      | Some b \<Rightarrow>
          (case dec_div b BGN_TO_EUR_DIVISOR of
             Inl err \<Rightarrow> Inl err
           | Inr calculated_eur \<Rightarrow>
               (case normalize_decimal calculated_eur of
                  Inl err \<Rightarrow> Inl err
                | Inr normalized_calc_eur \<Rightarrow>
                    (case eur_val of
                       None \<Rightarrow> Inr (False, Some normalized_calc_eur, None)
                     | Some e \<Rightarrow>
                         (case normalize_decimal e of
                            Inl err \<Rightarrow> Inl err
                          | Inr eur_price_normalized \<Rightarrow>
                              (case dec_ne normalized_calc_eur eur_price_normalized of
                                 Inl err \<Rightarrow> Inl err
                               | Inr ne \<Rightarrow>
                                   if ne
                                   then Inr (True, Some normalized_calc_eur,
                                             Some eur_price_normalized)
                                   else Inr (False, Some normalized_calc_eur, None)))))))"

definition verify_row ::
  "decimal option \<Rightarrow> decimal option \<Rightarrow> bool \<times> decimal option \<times> decimal option" where
  "verify_row bgn_val eur_val =
     (case verify_row_body bgn_val eur_val of
        Inl err \<Rightarrow> (False, None, None)
      | Inr res \<Rightarrow> res)"

section \<open>Worksheets and the verification run of \<^verbatim>\<open>main\<close>\<close>

text \<open>
  A worksheet is its header row (row 1) and its data rows (from row 2 on); rows and
  columns are numbered from 1. As in openpyxl, \<^verbatim>\<open>max_row\<close> is the number of the
  last stored row, and \<^verbatim>\<open>ws.cell(row, column).value\<close> of a cell that is not stored
  is \<open>None\<close>. The source asks for rows from 2 and columns from 1 only.
\<close>

record sheet =
  header :: "cell list"
  data_rows :: "cell list list"

definition max_row :: "sheet \<Rightarrow> nat" where
  "max_row ws = 1 + length (data_rows ws)"

definition cell_at :: "cell list \<Rightarrow> nat \<Rightarrow> cell" where
  "cell_at cells c = (if 1 \<le> c \<and> c \<le> length cells then cells ! (c - 1) else None)"

definition cell_value :: "sheet \<Rightarrow> nat \<Rightarrow> nat \<Rightarrow> cell" where
  "cell_value ws r c =
     (if r = 1 then cell_at (header ws) c
      else if 2 \<le> r \<and> r \<le> max_row ws then cell_at (data_rows ws ! (r - 2)) c
      else None)"

text \<open>
  \<open>find_header\<close> is the loop of \<^verbatim>\<open>get_column_index\<close> over the cells of row 1,
  \<open>col\<close> the column number of the cell at hand.
\<close>

fun find_header :: "string \<Rightarrow> nat \<Rightarrow> cell list \<Rightarrow> nat option" where
  "find_header target col [] = None"
| "find_header target col (c # cs) =
     (case c of
        None \<Rightarrow> find_header target (Suc col) cs
      | Some v \<Rightarrow>
          if truthy c \<and> strip (py_str v) = target then Some col
          else find_header target (Suc col) cs)"

definition get_column_index :: "sheet \<Rightarrow> string \<Rightarrow> nat option" where
  "get_column_index ws column_name = find_header (strip column_name) 1 (header ws)"

text \<open>The header names \<^verbatim>\<open>main\<close> extracts from row 1 (\<^verbatim>\<open>bgn_headers\<close>).\<close>

definition headers :: "sheet \<Rightarrow> string list" where
  "headers ws =
     concat (map (\<lambda>c. case c of None \<Rightarrow> []
                        | Some v \<Rightarrow> if truthy c then [strip (py_str v)] else [])
                 (header ws))"

record mismatch =
  Row :: nat
  Column :: string
  Source_BGN :: "decimal option"
  Calculated_EUR :: decimal
  File_EUR :: decimal
  Diff :: decimal

text \<open>
  \<^verbatim>\<open>column_map\<close> is a dict: its items come in the order of first insertion, and a
  repeated key overwrites in place.
\<close>

fun map_columns ::
  "sheet \<Rightarrow> sheet \<Rightarrow> string list \<Rightarrow> (string \<times> nat \<times> nat) list \<Rightarrow> (string \<times> nat \<times> nat) list" where
  "map_columns bgn_ws eur_ws [] column_map = column_map"
| "map_columns bgn_ws eur_ws (col_name # rest) column_map =
     map_columns bgn_ws eur_ws rest
       (case (get_column_index bgn_ws col_name, get_column_index eur_ws col_name) of
          (Some b_idx, Some e_idx) \<Rightarrow>
            if b_idx \<noteq> 0 \<and> e_idx \<noteq> 0
            then AList.update col_name (b_idx, e_idx) column_map
            else column_map
        | _ \<Rightarrow> column_map)"

text \<open>
  The body of the inner loop: one pair of cells, parsed and compared; a mismatch is
  appended to \<^verbatim>\<open>mismatches\<close>. The subtraction for the column Diff can raise.
\<close>

definition check_cell ::
  "sheet \<Rightarrow> sheet \<Rightarrow> nat \<Rightarrow> string \<times> nat \<times> nat \<Rightarrow> mismatch list \<Rightarrow> error + mismatch list" where
  "check_cell bgn_ws eur_ws r entry mismatches =
     (case entry of (col_name, b_idx, e_idx) \<Rightarrow>
        (let bgn_cell = cell_value bgn_ws r b_idx;
             eur_cell = cell_value eur_ws r e_idx;
             bgn_val = parse_decimal bgn_cell;
             eur_val = parse_decimal eur_cell
         in case verify_row bgn_val eur_val of
              (is_mismatch, calc_eur, given_eur) \<Rightarrow>
                if is_mismatch
                then (case (calc_eur, given_eur) of
                        (Some c, Some g) \<Rightarrow>
                          (case dec_sub c g of
                             Inl err \<Rightarrow> Inl err
                           | Inr d \<Rightarrow>
                               Inr (mismatches @
                                    [\<lparr>Row = r, Column = col_name, Source_BGN = bgn_val,
                                      Calculated_EUR = c, File_EUR = g, Diff = d\<rparr>]))
                      | _ \<Rightarrow> Inl TypeError)
                else Inr mismatches))"

fun process_columns ::
  "sheet \<Rightarrow> sheet \<Rightarrow> nat \<Rightarrow> (string \<times> nat \<times> nat) list \<Rightarrow> mismatch list \<Rightarrow> error + mismatch list" where
  "process_columns bgn_ws eur_ws r [] mismatches = Inr mismatches"
| "process_columns bgn_ws eur_ws r (entry # rest) mismatches =
     (case check_cell bgn_ws eur_ws r entry mismatches of
        Inl err \<Rightarrow> Inl err
      | Inr mismatches' \<Rightarrow> process_columns bgn_ws eur_ws r rest mismatches')"

fun process_rows ::
  "sheet \<Rightarrow> sheet \<Rightarrow> (string \<times> nat \<times> nat) list \<Rightarrow> nat list \<Rightarrow> mismatch list \<Rightarrow> error + mismatch list" where
  "process_rows bgn_ws eur_ws column_map [] mismatches = Inr mismatches"
| "process_rows bgn_ws eur_ws column_map (r # rs) mismatches =
     (case process_columns bgn_ws eur_ws r column_map mismatches of
        Inl err \<Rightarrow> Inl err
      | Inr mismatches' \<Rightarrow> process_rows bgn_ws eur_ws column_map rs mismatches')"

definition rows_to_check :: "sheet \<Rightarrow> sheet \<Rightarrow> nat list" where
  "rows_to_check bgn_ws eur_ws = [2 ..< max (max_row bgn_ws) (max_row eur_ws) + 1]"

text \<open>
  What pressing "Run Verification" ends in: the request to select a column, the list
  of mismatches, or the message of the outer handler \<^verbatim>\<open>except Exception\<close>.
\<close>

datatype outcome = PleaseSelect | Results "mismatch list" | Unexpected error

definition run_verification :: "sheet \<Rightarrow> sheet \<Rightarrow> string list \<Rightarrow> outcome" where
  "run_verification bgn_ws eur_ws selected_columns =
     (if selected_columns = [] then PleaseSelect
      else
        let column_map = map_columns bgn_ws eur_ws selected_columns []
        in case process_rows bgn_ws eur_ws column_map (rows_to_check bgn_ws eur_ws) [] of
             Inl err \<Rightarrow> Unexpected err
           | Inr mismatches \<Rightarrow> Results mismatches)"

text \<open>
  Predicates used in the statements below: a decimal at exactly two places that fits
  the context precision; what a normalised amount can be (such a decimal, or a quiet
  NaN); a difference above zero; a record as the loop of \<^verbatim>\<open>main\<close> builds it from the
  cells of worksheet row \<open>r\<close>; and a column entry whose indices are those the headers give.
\<close>

definition two_places :: "decimal \<Rightarrow> bool" where
  "two_places d = (case d of Dec s c e \<Rightarrow> e = - 2 \<and> ndigits c \<le> prec | _ \<Rightarrow> False)"

definition amount_shape :: "decimal \<Rightarrow> bool" where
  "amount_shape d = (d = NaN \<or> two_places d)"


definition record_of :: "sheet \<Rightarrow> sheet \<Rightarrow> nat \<Rightarrow> string \<times> nat \<times> nat \<Rightarrow> mismatch \<Rightarrow> bool" where
  "record_of bgn_ws eur_ws r entry m =
     (case entry of (col_name, b_idx, e_idx) \<Rightarrow>
        Row m = r \<and> Column m = col_name
        \<and> Source_BGN m = parse_decimal (cell_value bgn_ws r b_idx)
        \<and> verify_row (parse_decimal (cell_value bgn_ws r b_idx))
                      (parse_decimal (cell_value eur_ws r e_idx))
            = (True, Some (Calculated_EUR m), Some (File_EUR m))
        \<and> dec_sub (Calculated_EUR m) (File_EUR m) = Inr (Diff m))"

definition resolved :: "sheet \<Rightarrow> sheet \<Rightarrow> string \<times> nat \<times> nat \<Rightarrow> bool" where
  "resolved bgn_ws eur_ws entry =
     (case entry of (col_name, b_idx, e_idx) \<Rightarrow>
        get_column_index bgn_ws col_name = Some b_idx
        \<and> get_column_index eur_ws col_name = Some e_idx)"

text \<open>Two small worksheets for the concrete runs below.\<close>

definition bgn_example :: sheet where
  "bgn_example =
     \<lparr>header = [Some (VText ''Id''), Some (VText ''Price''), Some (VText ''Old'')],
      data_rows =
        [[Some (VInt 1), Some (VInt 100), Some (VInt 5)],
         [Some (VInt 2), Some (VText ''1,95583''), None],
         [Some (VInt 3), None, Some (VInt 7)],
         [Some (VInt 4), Some (VText ''abc''), Some (VInt 1)],
         [Some (VInt 5), Some (VInt 0), Some (VInt 1)]]\<rparr>"

definition eur_example :: sheet where
  "eur_example =
     \<lparr>header = [Some (VText ''Price''), Some (VText ''Id'')],
      data_rows =
        [[Some (VOther True ''51.0''), Some (VInt 1)],
         [Some (VText ''1.00''), Some (VInt 2)],
         [Some (VText ''10.00''), Some (VInt 3)]]\<rparr>"

text \<open>The record the run over the two examples ends in.\<close>

definition example_record :: mismatch where
  "example_record =
     \<lparr>Row = 2, Column = ''Price'', Source_BGN = Some (Dec False 100 0),
      Calculated_EUR = Dec False 5113 (- 2), File_EUR = Dec False 5100 (- 2),
      Diff = Dec False 13 (- 2)\<rparr>"



text \<open>
  The records one pair of cells contributes: the one record of its mismatch, or none.
\<close>

definition cell_records :: "sheet \<Rightarrow> sheet \<Rightarrow> nat \<Rightarrow> string \<times> nat \<times> nat \<Rightarrow> mismatch list" where
  "cell_records bgn_ws eur_ws r entry =
     (case entry of (col_name, b_idx, e_idx) \<Rightarrow>
        (case verify_row (parse_decimal (cell_value bgn_ws r b_idx))
                         (parse_decimal (cell_value eur_ws r e_idx)) of
           (is_mismatch, calc_eur, given_eur) \<Rightarrow>
             if is_mismatch
             then (case (calc_eur, given_eur) of
                     (Some c, Some g) \<Rightarrow>
                       (case dec_sub c g of
                          Inl err \<Rightarrow> []
                        | Inr d \<Rightarrow>
                            [\<lparr>Row = r, Column = col_name,
                              Source_BGN = parse_decimal (cell_value bgn_ws r b_idx),
                              Calculated_EUR = c, File_EUR = g, Diff = d\<rparr>])
                   | _ \<Rightarrow> [])
             else []))"


section \<open>Evaluation of concrete inputs\<close>

lemmas str_defs =
  parse_decimal_def cleaned_str_def Decimal_of_str_def parse_number_def parse_exponent_def
  strip_def replace_char_def is_space_def is_digit_def digit_val_def nat_of_digits_def
  lower_def str_int_def str_nat.simps digit_char_def representable_def MAX_EMAX_def
  MIN_ETINY_def ndigits.simps

lemmas dec_defs =
  verify_row_def verify_row_body_def normalize_decimal_def BGN_TO_EUR_DIVISOR_def TWO_PLACES_def
  dec_fix_def div_coeff_def strip_zeros.simps rescale_half_up_def round_half_up_def
  round_half_even_def ndigits.simps prec_def Emax_def Emin_def Etiny_def Etop_def
  dec_ne_def signed_coeff_def dec_sub_def

lemmas sheet_defs =
  cell_value_def cell_at_def max_row_def check_cell_def get_column_index_def
  run_verification_def rows_to_check_def headers_def bgn_example_def eur_example_def

section \<open>Digit counts and results that fit the context\<close>


lemma ndigits_less_pow: "n < 10 ^ ndigits n"
proof (induction n rule: ndigits.induct)
  case (1 n)
  show ?case
  proof (cases "n < 10")
    case True
    then show ?thesis by (subst ndigits.simps) simp
  next
    case False
    with 1 have "n div 10 < 10 ^ ndigits (n div 10)" by simp
    then have "n < 10 * 10 ^ ndigits (n div 10)" by simp
    with False show ?thesis by (subst ndigits.simps) simp
  qed
qed

lemma ndigits_le: "0 < k \<Longrightarrow> n < 10 ^ k \<Longrightarrow> ndigits n \<le> k"
proof (induction n arbitrary: k rule: ndigits.induct)
  case (1 n)
  show ?case
  proof (cases "n < 10")
    case True
    with 1 show ?thesis by (subst ndigits.simps) simp
  next
    case False
    from 1(2) obtain j where k: "k = Suc j" by (cases k) auto
    with False 1(3) have "0 < j" by (cases j) auto
    moreover from k 1(3) have "n div 10 < 10 ^ j" by simp
    ultimately have "ndigits (n div 10) \<le> j" using 1(1) False by simp
    with False k show ?thesis by (subst ndigits.simps) simp
  qed
qed

lemma ndigits_le_iff: "0 < k \<Longrightarrow> (ndigits n \<le> k) = (n < 10 ^ k)"
proof
  assume "ndigits n \<le> k"
  then have "(10::nat) ^ ndigits n \<le> 10 ^ k" by (simp add: power_increasing)
  with ndigits_less_pow [of n] show "n < 10 ^ k" by (rule less_le_trans)
qed (rule ndigits_le)



lemma dec_fix_id:
  assumes "ndigits c \<le> prec" "Etiny \<le> e" "e \<le> Etop"
  shows "dec_fix (Dec s c e) = Inr (Dec s c e)"
proof (cases "c = 0")
  case True
  with assms show ?thesis by (simp add: dec_fix_def Etop_def Emax_def prec_def)
next
  case False
  with assms show ?thesis by (simp add: dec_fix_def Let_def)
qed

lemma dec_fix_no_error:
  assumes "int (ndigits c) + e - int prec + 1 \<le> Etop"
  shows "\<exists>s' c' e'. dec_fix (Dec s c e) = Inr (Dec s' c' e')"
  using assms by (simp add: dec_fix_def Let_def Etiny_def Etop_def Emin_def Emax_def prec_def)

lemma normalize_shape:
  assumes "normalize_decimal d = Inr r"
  shows "r = NaN \<or> two_places r"
proof (cases d)
  case (Dec s c e)
  have z: "ndigits 0 \<le> prec" by (simp add: ndigits.simps prec_def)
  have r: "Etiny \<le> - 2" "- 2 \<le> Etop" "- 2 \<le> Emax"
    by (simp_all add: Etiny_def Etop_def Emin_def Emax_def prec_def)
  show ?thesis
  proof (cases "c = 0")
    case True
    with assms Dec r z show ?thesis
      by (auto simp add: normalize_decimal_def TWO_PLACES_def dec_fix_id two_places_def)
  next
    case False
    with assms Dec r show ?thesis
      by (auto simp add: normalize_decimal_def TWO_PLACES_def Let_def dec_fix_id two_places_def
          split: if_splits)
  qed
qed (use assms in \<open>simp_all add: normalize_decimal_def TWO_PLACES_def\<close>)

section \<open>The difference of two amounts\<close>

lemma two_placesE:
  assumes "two_places d"
  obtains s c where "d = Dec s c (- 2)" "ndigits c \<le> prec" "c < 10 ^ 28"
proof -
  from assms obtain s c where d: "d = Dec s c (- 2)" and n: "ndigits c \<le> prec"
    by (auto simp add: two_places_def split: decimal.splits)
  from n have "c < 10 ^ 28" by (simp add: prec_def ndigits_le_iff)
  with d n that show thesis by blast
qed

lemma signed_coeff_eq_0 [simp]: "(signed_coeff s c = 0) = (c = 0)"
  by (simp add: signed_coeff_def)

lemma signed_coeff_neg: "signed_coeff (\<not> s) c = - signed_coeff s c"
  by (simp add: signed_coeff_def)

lemma dec_fix_zero_two: "dec_fix (Dec s 0 (- 2)) = Inr (Dec s 0 (- 2))"
  by (simp add: dec_fix_def Etiny_def Emin_def Emax_def prec_def)

lemma dec_sub_zero:
  "dec_sub (Dec s1 0 (- 2)) (Dec s2 0 (- 2)) = Inr (Dec (s1 \<and> \<not> s2) 0 (- 2))"
  by (simp add: dec_sub_def dec_fix_zero_two)

lemma dec_sub_cancel:
  assumes "signed_coeff s1 c1 = signed_coeff s2 c2" "c1 \<noteq> 0 \<or> c2 \<noteq> 0"
  shows "dec_sub (Dec s1 c1 (- 2)) (Dec s2 c2 (- 2)) = Inr (Dec False 0 (- 2))"
proof -
  from assms show ?thesis
    by (auto simp add: dec_sub_def Let_def signed_coeff_neg dec_fix_zero_two)
qed

lemma dec_sub_differ:
  assumes "signed_coeff s1 c1 \<noteq> signed_coeff s2 c2"
  shows "dec_sub (Dec s1 c1 (- 2)) (Dec s2 c2 (- 2)) =
           dec_fix (Dec (signed_coeff s1 c1 < signed_coeff s2 c2)
                        (nat \<bar>signed_coeff s1 c1 - signed_coeff s2 c2\<bar>) (- 2))"
proof -
  have "\<not> (c1 = 0 \<and> c2 = 0)"
  proof
    assume "c1 = 0 \<and> c2 = 0"
    then have "signed_coeff s1 c1 = 0" "signed_coeff s2 c2 = 0" by simp_all
    with assms show False by simp
  qed
  with assms show ?thesis
    by (auto simp add: dec_sub_def Let_def signed_coeff_neg)
qed

lemma abs_total_bound:
  assumes "c1 < 10 ^ 28" "c2 < 10 ^ 28"
  shows "nat \<bar>signed_coeff s1 c1 - signed_coeff s2 c2\<bar> < 10 ^ 29"
proof -
  have "nat \<bar>signed_coeff s1 c1 - signed_coeff s2 c2\<bar> \<le> c1 + c2"
    by (auto simp add: signed_coeff_def)
  also from assms have "\<dots> < 10 ^ 29" by simp
  finally show ?thesis .
qed

lemma dec_sub_two_places:
  assumes "two_places c" "two_places g"
  shows "\<exists>d. dec_sub c g = Inr d"
proof -
  from assms(1) obtain s1 c1 where c: "c = Dec s1 c1 (- 2)" and b1: "c1 < 10 ^ 28"
    by (rule two_placesE)
  from assms(2) obtain s2 c2 where g: "g = Dec s2 c2 (- 2)" and b2: "c2 < 10 ^ 28"
    by (rule two_placesE)
  let ?t = "signed_coeff s1 c1 - signed_coeff s2 c2"
  show ?thesis
  proof (cases "signed_coeff s1 c1 = signed_coeff s2 c2")
    case True
    show ?thesis
    proof (cases "c1 = 0 \<and> c2 = 0")
      case True
      then show ?thesis unfolding c g by (simp add: dec_sub_zero)
    next
      case False
      then have "c1 \<noteq> 0 \<or> c2 \<noteq> 0" by simp
      from dec_sub_cancel [OF True this] show ?thesis unfolding c g by simp
    qed
  next
    case False
    have "ndigits (nat \<bar>?t\<bar>) \<le> 29"
      using abs_total_bound [OF b1 b2] by (simp add: ndigits_le_iff)
    then have "int (ndigits (nat \<bar>?t\<bar>)) + (- 2) - int prec + 1 \<le> Etop"
      by (simp add: Etop_def Emax_def prec_def)
    from dec_fix_no_error [OF this] show ?thesis
      unfolding c g dec_sub_differ [OF False] by blast
  qed
qed

lemma dec_sub_amounts:
  assumes "amount_shape c" "amount_shape g"
  shows "\<exists>d. dec_sub c g = Inr d"
proof (cases "c = NaN \<or> g = NaN")
  case True
  then show ?thesis
  proof
    assume "c = NaN"
    with assms(2) show ?thesis
      by (cases g) (auto simp add: dec_sub_def amount_shape_def two_places_def)
  next
    assume "g = NaN"
    with assms(1) show ?thesis
      by (cases c) (auto simp add: dec_sub_def amount_shape_def two_places_def)
  qed
next
  case False
  with assms have "two_places c" "two_places g" by (simp_all add: amount_shape_def)
  from dec_sub_two_places [OF this] show ?thesis by blast
qed






section \<open>Absent values and caught failures\<close>

lemma verify_row_mismatch:
  assumes "verify_row bgn_val eur_val = (True, calc, given)"
  shows "\<exists>b e q c g. bgn_val = Some b \<and> eur_val = Some e
           \<and> dec_div b BGN_TO_EUR_DIVISOR = Inr q \<and> normalize_decimal q = Inr c
           \<and> normalize_decimal e = Inr g \<and> dec_ne c g = Inr True
           \<and> calc = Some c \<and> given = Some g"
  using assms
  by (auto simp add: verify_row_def verify_row_body_def
      split: option.splits sum.splits if_splits)

lemma verify_row_mismatch_shape:
  assumes "verify_row bgn_val eur_val = (True, calc, given)"
  shows "\<exists>c g. calc = Some c \<and> given = Some g \<and> amount_shape c \<and> amount_shape g"
proof -
  from verify_row_mismatch [OF assms] obtain q e c g
    where "normalize_decimal q = Inr c" "normalize_decimal e = Inr g" "calc = Some c" "given = Some g"
    by blast
  with normalize_shape [of q c] normalize_shape [of e g] show ?thesis
    by (simp add: amount_shape_def)
qed

lemma verify_row_None: "verify_row None eur_val = (False, None, None)"
  by (simp add: verify_row_def verify_row_body_def)

lemma verify_row_eur_None: "fst (verify_row bgn_val None) = False"
  by (simp add: verify_row_def verify_row_body_def split: option.splits sum.splits)

lemma verify_row_eur_None_given: "snd (snd (verify_row bgn_val None)) = None"
  by (simp add: verify_row_def verify_row_body_def split: option.splits sum.splits)

lemma check_cell_absent:
  assumes "parse_decimal (cell_value bgn_ws r b_idx) = None
           \<or> parse_decimal (cell_value eur_ws r e_idx) = None"
  shows "check_cell bgn_ws eur_ws r (col_name, b_idx, e_idx) mismatches = Inr mismatches"
proof -
  obtain m c g where v:
    "verify_row (parse_decimal (cell_value bgn_ws r b_idx))
                (parse_decimal (cell_value eur_ws r e_idx)) = (m, c, g)"
    using prod_cases3 by blast
  from assms have "\<not> m"
  proof
    assume "parse_decimal (cell_value bgn_ws r b_idx) = None"
    with v show ?thesis by (simp add: verify_row_None)
  next
    assume "parse_decimal (cell_value eur_ws r e_idx) = None"
    with v verify_row_eur_None [of "parse_decimal (cell_value bgn_ws r b_idx)"]
    show ?thesis by simp
  qed
  with v show ?thesis by (simp add: check_cell_def)
qed

text \<open>
  Claim C4. A pair whose BGN value is absent or unparsable (\<open>parse_decimal\<close> gives
  \<open>None\<close> for both) is never a mismatch, whatever the EUR value; neither is a pair
  whose EUR value is absent or unparsable, whatever the BGN value. In both cases the
  loop of \<^verbatim>\<open>main\<close> appends no record.
\<close>

theorem absence_suppresses_mismatch:
  "verify_row None eur_val = (False, None, None)
   \<and> fst (verify_row bgn_val None) = False
   \<and> snd (snd (verify_row bgn_val None)) = None
   \<and> (parse_decimal (cell_value bgn_ws r b_idx) = None
        \<or> parse_decimal (cell_value eur_ws r e_idx) = None
      \<longrightarrow> check_cell bgn_ws eur_ws r (col_name, b_idx, e_idx) mismatches = Inr mismatches)"
  using check_cell_absent
  by (simp add: verify_row_None verify_row_eur_None verify_row_eur_None_given)

theorem absence_suppresses_mismatch_witness:
  "parse_decimal (cell_value bgn_example 5 2) = None
   \<and> parse_decimal (cell_value eur_example 5 1) = None
   \<and> parse_decimal (cell_value bgn_example 4 2) = None
   \<and> parse_decimal (cell_value eur_example 4 1) = Some (Dec False 1000 (- 2))
   \<and> check_cell bgn_example eur_example 5 (''Price'', 2, 1) [] = Inr []
   \<and> check_cell bgn_example eur_example 4 (''Price'', 2, 1) [] = Inr []"
proof -
  have a: "parse_decimal (cell_value bgn_example 5 2) = None"
    by (simp add: sheet_defs str_defs)
  have b: "parse_decimal (cell_value eur_example 5 1) = None"
    by (simp add: sheet_defs str_defs)
  have c: "parse_decimal (cell_value bgn_example 4 2) = None"
    by (simp add: sheet_defs str_defs)
  have d: "parse_decimal (cell_value eur_example 4 1) = Some (Dec False 1000 (- 2))"
    by (simp add: sheet_defs str_defs)
  from a b c d
    absence_suppresses_mismatch [of _ _ bgn_example 5 2 eur_example 1 "''Price''" "[]"]
    absence_suppresses_mismatch [of _ _ bgn_example 4 2 eur_example 1 "''Price''" "[]"]
  show ?thesis by simp
qed

text \<open>
  What the handler of \<open>verify_row\<close> does catch: every failure that is raised, be it
  by the division by the rate, by the rounding of the quotient or by the rounding of the
  EUR value, ends in the triple of "not applicable".
\<close>

lemma raised_failure_is_caught:
  "(dec_div b BGN_TO_EUR_DIVISOR = Inl err
      \<longrightarrow> verify_row (Some b) eur_val = (False, None, None))
   \<and> (dec_div b BGN_TO_EUR_DIVISOR = Inr q \<and> normalize_decimal q = Inl err
      \<longrightarrow> verify_row (Some b) eur_val = (False, None, None))
   \<and> (normalize_decimal e = Inl err \<longrightarrow> verify_row bgn_val (Some e) = (False, None, None))
   \<and> (verify_row_body bgn_val eur_val = Inl err
      \<longrightarrow> verify_row bgn_val eur_val = (False, None, None))"
  by (simp add: verify_row_def verify_row_body_def split: option.splits sum.splits)

lemma raised_failure_examples:
  "dec_div SNaN BGN_TO_EUR_DIVISOR = Inl InvalidOperation
   \<and> verify_row (Some SNaN) (Some (Dec False 100 (- 2))) = (False, None, None)
   \<and> dec_div (Infinity False) BGN_TO_EUR_DIVISOR = Inr (Infinity False)
   \<and> normalize_decimal (Infinity False) = Inl InvalidOperation
   \<and> verify_row (Some (Infinity False)) (Some (Dec False 100 (- 2))) = (False, None, None)
   \<and> normalize_decimal (Dec False 1 30) = Inl InvalidOperation
   \<and> verify_row (Some (Dec False 100 0)) (Some (Dec False 1 30)) = (False, None, None)
   \<and> verify_row_body (Some (Dec False 100 0)) (Some (Infinity True)) = Inl InvalidOperation
   \<and> verify_row (Some (Dec False 100 0)) (Some (Infinity True)) = (False, None, None)"
proof -
  have a: "dec_div SNaN BGN_TO_EUR_DIVISOR = Inl InvalidOperation"
    by (simp add: BGN_TO_EUR_DIVISOR_def)
  have b: "dec_div (Infinity False) BGN_TO_EUR_DIVISOR = Inr (Infinity False)
           \<and> normalize_decimal (Infinity False) = Inl InvalidOperation"
    by (simp add: BGN_TO_EUR_DIVISOR_def normalize_decimal_def TWO_PLACES_def)
  have c: "normalize_decimal (Dec False 1 30) = Inl InvalidOperation"
    by (simp add: dec_defs)
  have d: "verify_row_body (Some (Dec False 100 0)) (Some (Infinity True))
           = Inl InvalidOperation"
    by (simp add: dec_defs)
  from a b c d
    raised_failure_is_caught
      [where b = SNaN and err = InvalidOperation and eur_val = "Some (Dec False 100 (- 2))"]
    raised_failure_is_caught
      [where b = "Infinity False" and err = InvalidOperation and q = "Infinity False"
         and eur_val = "Some (Dec False 100 (- 2))"]
    raised_failure_is_caught
      [where e = "Dec False 1 30" and err = InvalidOperation
         and bgn_val = "Some (Dec False 100 0)"]
    raised_failure_is_caught
      [where e = "Infinity True" and err = InvalidOperation
         and bgn_val = "Some (Dec False 100 0)" and eur_val = "Some (Infinity True)"]
  show ?thesis by simp
qed

text \<open>
  Claim C5, where the source falls short. The claim names a non-finite intermediate
  value as a failure that is caught. An infinite one is: \<^verbatim>\<open>quantize\<close> raises on
  it. A quiet NaN, which the text \<^verbatim>\<open>NaN\<close> of a cell parses to, is not: the
  division and \<^verbatim>\<open>quantize\<close> pass it on, nothing is raised, the handler never
  runs, and \<^verbatim>\<open>!=\<close> makes the pair a mismatch instead of "not applicable".
\<close>

theorem nan_intermediate_not_caught:
  "parse_decimal (Some (VText ''NaN'')) = Some NaN
   \<and> dec_div NaN BGN_TO_EUR_DIVISOR = Inr NaN
   \<and> normalize_decimal NaN = Inr NaN
   \<and> verify_row_body (Some NaN) (Some (Dec False 100 (- 2)))
       = Inr (True, Some NaN, Some (Dec False 100 (- 2)))
   \<and> verify_row (Some NaN) (Some (Dec False 100 (- 2)))
       = (True, Some NaN, Some (Dec False 100 (- 2)))
   \<and> verify_row (Some NaN) (Some (Dec False 100 (- 2))) \<noteq> (False, None, None)
   \<and> verify_row (Some (Infinity False)) (Some (Dec False 100 (- 2))) = (False, None, None)"
  by (simp add: str_defs dec_defs)

text \<open>
  Claim C6, which the source does not bear out: \<open>parse_decimal\<close> returns \<open>None\<close> for an
  empty cell and the same \<open>None\<close> for a text that is no number, so a caller cannot
  tell the two apart.
\<close>

theorem absent_unparsable_same_counterexample:
  "\<not> (parse_decimal None \<noteq> parse_decimal (Some (VText ''abc'')))"
  by (simp add: str_defs)

text \<open>
  Claim C6 as amended: an empty cell yields \<open>None\<close>, and a cell whose cleaned text the
  constructor of \<^verbatim>\<open>Decimal\<close> rejects yields the very same \<open>None\<close>; no other cell
  does.
\<close>

theorem parse_decimal_absent_or_unparsable:
  "parse_decimal None = None
   \<and> ((\<exists>err. Decimal_of_str (cleaned_str (py_str v)) = Inl err)
        \<longrightarrow> parse_decimal (Some v) = parse_decimal None)
   \<and> (parse_decimal (Some v) = None
        \<longrightarrow> (\<exists>err. Decimal_of_str (cleaned_str (py_str v)) = Inl err))"
  by (auto simp add: parse_decimal_def split: sum.splits)

theorem parse_decimal_absent_or_unparsable_witness:
  "Decimal_of_str (cleaned_str (py_str (VText ''n/a''))) = Inl InvalidOperation
   \<and> parse_decimal (Some (VText ''n/a'')) = parse_decimal None
   \<and> parse_decimal None = None"
proof -
  have a: "Decimal_of_str (cleaned_str (py_str (VText ''n/a''))) = Inl InvalidOperation"
    by (simp add: str_defs)
  from a parse_decimal_absent_or_unparsable [of "VText ''n/a''"]
  show ?thesis by auto
qed

section \<open>The loops of the verification run\<close>

lemma check_cell_result:
  "\<exists>ms. check_cell bgn_ws eur_ws r entry acc = Inr (acc @ ms)
        \<and> (\<forall>m \<in> set ms. record_of bgn_ws eur_ws r entry m)"
proof -
  obtain col_name b_idx e_idx where entry: "entry = (col_name, b_idx, e_idx)"
    by (cases entry)
  let ?b = "parse_decimal (cell_value bgn_ws r b_idx)"
  let ?e = "parse_decimal (cell_value eur_ws r e_idx)"
  obtain is_mismatch calc given where v: "verify_row ?b ?e = (is_mismatch, calc, given)"
    by (cases "verify_row ?b ?e")
  show ?thesis
  proof (cases is_mismatch)
    case False
    with v entry have "check_cell bgn_ws eur_ws r entry acc = Inr (acc @ [])"
      by (simp add: check_cell_def)
    then show ?thesis by force
  next
    case True
    with v have v': "verify_row ?b ?e = (True, calc, given)" by simp
    from verify_row_mismatch_shape [OF v'] obtain c g
      where cg: "calc = Some c" "given = Some g" "amount_shape c" "amount_shape g" by blast
    from dec_sub_amounts [OF cg(3,4)] obtain d where d: "dec_sub c g = Inr d" by blast
    let ?m = "\<lparr>Row = r, Column = col_name, Source_BGN = ?b,
               Calculated_EUR = c, File_EUR = g, Diff = d\<rparr>"
    from v' cg d entry have "check_cell bgn_ws eur_ws r entry acc = Inr (acc @ [?m])"
      by (simp add: check_cell_def)
    moreover from v' cg d entry have "record_of bgn_ws eur_ws r entry ?m"
      by (simp add: record_of_def)
    ultimately show ?thesis by force
  qed
qed

lemma process_columns_result:
  "\<exists>ms. process_columns bgn_ws eur_ws r column_map acc = Inr (acc @ ms)
        \<and> (\<forall>m \<in> set ms. \<exists>entry \<in> set column_map. record_of bgn_ws eur_ws r entry m)"
proof (induction column_map arbitrary: acc)
  case Nil
  then show ?case by simp
next
  case (Cons entry rest)
  from check_cell_result [of bgn_ws eur_ws r entry acc] obtain ms1
    where 1: "check_cell bgn_ws eur_ws r entry acc = Inr (acc @ ms1)"
      and r1: "\<forall>m \<in> set ms1. record_of bgn_ws eur_ws r entry m" by blast
  from Cons.IH [of "acc @ ms1"] obtain ms2
    where 2: "process_columns bgn_ws eur_ws r rest (acc @ ms1) = Inr ((acc @ ms1) @ ms2)"
      and r2: "\<forall>m \<in> set ms2. \<exists>entry \<in> set rest. record_of bgn_ws eur_ws r entry m" by blast
  from 1 2 have "process_columns bgn_ws eur_ws r (entry # rest) acc = Inr (acc @ (ms1 @ ms2))"
    by simp
  moreover from r1 r2
  have "\<forall>m \<in> set (ms1 @ ms2). \<exists>en \<in> set (entry # rest). record_of bgn_ws eur_ws r en m"
    by auto
  ultimately show ?case by blast
qed

lemma process_rows_result:
  "\<exists>ms. process_rows bgn_ws eur_ws column_map rs acc = Inr (acc @ ms)
        \<and> (\<forall>m \<in> set ms. \<exists>r \<in> set rs. \<exists>entry \<in> set column_map.
               record_of bgn_ws eur_ws r entry m)"
proof (induction rs arbitrary: acc)
  case Nil
  then show ?case by simp
next
  case (Cons r rest)
  from process_columns_result [of bgn_ws eur_ws r column_map acc] obtain ms1
    where 1: "process_columns bgn_ws eur_ws r column_map acc = Inr (acc @ ms1)"
      and r1: "\<forall>m \<in> set ms1. \<exists>entry \<in> set column_map. record_of bgn_ws eur_ws r entry m"
    by blast
  from Cons.IH [of "acc @ ms1"] obtain ms2
    where 2: "process_rows bgn_ws eur_ws column_map rest (acc @ ms1) = Inr ((acc @ ms1) @ ms2)"
      and r2: "\<forall>m \<in> set ms2. \<exists>r \<in> set rest. \<exists>entry \<in> set column_map.
                 record_of bgn_ws eur_ws r entry m" by blast
  from 1 2 have "process_rows bgn_ws eur_ws column_map (r # rest) acc = Inr (acc @ (ms1 @ ms2))"
    by simp
  moreover from r1 r2
  have "\<forall>m \<in> set (ms1 @ ms2). \<exists>r' \<in> set (r # rest). \<exists>entry \<in> set column_map.
          record_of bgn_ws eur_ws r' entry m"
    by auto
  ultimately show ?case by blast
qed

lemma run_verification_result:
  assumes "selected_columns \<noteq> []"
  shows "\<exists>ms. run_verification bgn_ws eur_ws selected_columns = Results ms
          \<and> (\<forall>m \<in> set ms. \<exists>r \<in> set (rows_to_check bgn_ws eur_ws).
                \<exists>entry \<in> set (map_columns bgn_ws eur_ws selected_columns []).
                  record_of bgn_ws eur_ws r entry m)"
proof -
  from process_rows_result [of bgn_ws eur_ws "map_columns bgn_ws eur_ws selected_columns []"
      "rows_to_check bgn_ws eur_ws" "[]"]
  obtain ms where
    "process_rows bgn_ws eur_ws (map_columns bgn_ws eur_ws selected_columns [])
       (rows_to_check bgn_ws eur_ws) [] = Inr ms"
    "\<forall>m \<in> set ms. \<exists>r \<in> set (rows_to_check bgn_ws eur_ws).
        \<exists>entry \<in> set (map_columns bgn_ws eur_ws selected_columns []).
          record_of bgn_ws eur_ws r entry m"
    by auto
  with assms show ?thesis by (simp add: run_verification_def)
qed

lemma set_update_subset: "set (AList.update k v al) \<subseteq> insert (k, v) (set al)"
  by (induction al) auto

lemma resolved_update:
  assumes "\<forall>entry \<in> set column_map. resolved bgn_ws eur_ws entry"
    and "resolved bgn_ws eur_ws (k, v)"
  shows "\<forall>entry \<in> set (AList.update k v column_map). resolved bgn_ws eur_ws entry"
  using assms set_update_subset [of k v column_map] by blast

lemma map_columns_resolved:
  assumes "\<forall>entry \<in> set column_map. resolved bgn_ws eur_ws entry"
  shows "\<forall>entry \<in> set (map_columns bgn_ws eur_ws cols column_map). resolved bgn_ws eur_ws entry"
  using assms
proof (induction cols arbitrary: column_map)
  case Nil
  then show ?case by simp
next
  case (Cons col_name rest)
  let ?cm = "case (get_column_index bgn_ws col_name, get_column_index eur_ws col_name) of
          (Some b_idx, Some e_idx) \<Rightarrow>
            if b_idx \<noteq> 0 \<and> e_idx \<noteq> 0
            then AList.update col_name (b_idx, e_idx) column_map
            else column_map
        | _ \<Rightarrow> column_map"
  have "\<forall>entry \<in> set ?cm. resolved bgn_ws eur_ws entry"
  proof (cases "get_column_index bgn_ws col_name")
    case None
    with Cons.prems show ?thesis by simp
  next
    case b: (Some b_idx)
    show ?thesis
    proof (cases "get_column_index eur_ws col_name")
      case None
      with b Cons.prems show ?thesis by simp
    next
      case e: (Some e_idx)
      from b e have "resolved bgn_ws eur_ws (col_name, b_idx, e_idx)"
        by (simp add: resolved_def)
      from resolved_update [OF Cons.prems this] b e Cons.prems show ?thesis by simp
    qed
  qed
  from Cons.IH [OF this] show ?case by simp
qed

lemma find_header_None:
  "(find_header target col cells = None)
   = (target \<notin> set (concat (map (\<lambda>c. case c of None \<Rightarrow> []
                        | Some v \<Rightarrow> if truthy c then [strip (py_str v)] else []) cells)))"
  by (induction cells arbitrary: col) (auto split: option.splits)

lemma get_column_index_None:
  "(get_column_index ws column_name = None) = (strip column_name \<notin> set (headers ws))"
  by (simp add: get_column_index_def headers_def find_header_None)

lemma find_header_Some:
  "find_header target col cells = Some i \<Longrightarrow>
     col \<le> i \<and> i < col + length cells
     \<and> (\<exists>v. cells ! (i - col) = Some v \<and> truthy (Some v) \<and> strip (py_str v) = target)"
proof (induction cells arbitrary: col)
  case Nil
  then show ?case by simp
next
  case (Cons c cs)
  show ?case
  proof (cases "\<exists>v. c = Some v \<and> truthy c \<and> strip (py_str v) = target")
    case True
    with Cons.prems show ?thesis by auto
  next
    case False
    with Cons.prems have "find_header target (Suc col) cs = Some i"
      by (auto split: option.splits if_splits)
    from Cons.IH [OF this] show ?thesis
      by (auto simp add: nth_Cons' Suc_diff_le)
  qed
qed

lemma cell_value_beyond: "max_row ws < r \<Longrightarrow> cell_value ws r c = None"
  by (simp add: cell_value_def max_row_def)

lemma parse_decimal_None [simp]: "parse_decimal None = None"
  by (simp add: parse_decimal_def)

lemma verify_row_True_Some:
  assumes "verify_row bgn_val eur_val = (True, calc, given)"
  shows "bgn_val \<noteq> None \<and> eur_val \<noteq> None"
  using verify_row_mismatch [OF assms] by auto

lemma record_of_rows:
  assumes "record_of bgn_ws eur_ws r (col_name, b_idx, e_idx) m"
  shows "Row m = r \<and> Column m = col_name \<and> r \<le> max_row bgn_ws \<and> r \<le> max_row eur_ws"
proof -
  from assms have v: "verify_row (parse_decimal (cell_value bgn_ws r b_idx))
                      (parse_decimal (cell_value eur_ws r e_idx))
            = (True, Some (Calculated_EUR m), Some (File_EUR m))"
    and rc: "Row m = r" "Column m = col_name"
    by (simp_all add: record_of_def)
  from verify_row_True_Some [OF v]
  have "cell_value bgn_ws r b_idx \<noteq> None" "cell_value eur_ws r e_idx \<noteq> None"
    by (metis parse_decimal_None)+
  then have "\<not> max_row bgn_ws < r" "\<not> max_row eur_ws < r"
    by (metis cell_value_beyond)+
  with rc show ?thesis by simp
qed

lemma set_rows_to_check:
  "set (rows_to_check bgn_ws eur_ws) = {r. 2 \<le> r \<and> r \<le> max (max_row bgn_ws) (max_row eur_ws)}"
  by (auto simp add: rows_to_check_def)

lemma example_run:
  "run_verification bgn_example eur_example [''Price'', ''Old''] =
     Results [\<lparr>Row = 2, Column = ''Price'', Source_BGN = Some (Dec False 100 0),
               Calculated_EUR = Dec False 5113 (- 2), File_EUR = Dec False 5100 (- 2),
               Diff = Dec False 13 (- 2)\<rparr>]"
  by (simp add: sheet_defs str_defs dec_defs upt_rec)

lemma example_map: "map_columns bgn_example eur_example [''Price'', ''Old''] [] = [(''Price'', 2, 1)]"
  by (simp add: sheet_defs str_defs)

lemma example_headers: "headers eur_example = [''Price'', ''Id'']"
  by (simp add: sheet_defs str_defs)

text \<open>
  Claim C7. A requested column name that, trimmed, is not among the header names of
  one of the two worksheets gets no entry in \<^verbatim>\<open>column_map\<close>, so no pair of cells
  is compared for it, no record carries its name, and the run ends with its list of
  results, not with an error.
\<close>

theorem missing_column_skipped:
  assumes "n \<in> set selected_columns"
    and "strip n \<notin> set (headers bgn_ws) \<or> strip n \<notin> set (headers eur_ws)"
  shows "n \<notin> fst ` set (map_columns bgn_ws eur_ws selected_columns [])
         \<and> (\<exists>ms. run_verification bgn_ws eur_ws selected_columns = Results ms
                \<and> (\<forall>m \<in> set ms. Column m \<noteq> n))"
proof -
  let ?cm = "map_columns bgn_ws eur_ws selected_columns []"
  have res: "\<forall>entry \<in> set ?cm. resolved bgn_ws eur_ws entry"
    by (rule map_columns_resolved) simp
  have key: "n \<notin> fst ` set ?cm"
  proof
    assume "n \<in> fst ` set ?cm"
    then obtain b_idx e_idx where "(n, b_idx, e_idx) \<in> set ?cm" by force
    with res have "resolved bgn_ws eur_ws (n, b_idx, e_idx)" by blast
    then have "get_column_index bgn_ws n \<noteq> None" "get_column_index eur_ws n \<noteq> None"
      by (simp_all add: resolved_def)
    with assms(2) show False by (simp add: get_column_index_None)
  qed
  from assms(1) have "selected_columns \<noteq> []" by auto
  from run_verification_result [OF this, of bgn_ws eur_ws] obtain ms
    where run: "run_verification bgn_ws eur_ws selected_columns = Results ms"
      and recs: "\<forall>m \<in> set ms. \<exists>r \<in> set (rows_to_check bgn_ws eur_ws).
                \<exists>entry \<in> set ?cm. record_of bgn_ws eur_ws r entry m"
    by blast
  have "\<forall>m \<in> set ms. Column m \<noteq> n"
  proof
    fix m assume "m \<in> set ms"
    with recs obtain r entry where e: "entry \<in> set ?cm" "record_of bgn_ws eur_ws r entry m"
      by blast
    obtain col_name b_idx e_idx where "entry = (col_name, b_idx, e_idx)" by (cases entry)
    with e record_of_rows [of bgn_ws eur_ws r col_name b_idx e_idx m]
    have "Column m \<in> fst ` set ?cm" by force
    with key show "Column m \<noteq> n" by auto
  qed
  with key run show ?thesis by blast
qed

theorem missing_column_skipped_witness:
  "''Old'' \<in> set [''Price'', ''Old'']
   \<and> strip ''Old'' \<notin> set (headers eur_example)
   \<and> ''Old'' \<notin> fst ` set (map_columns bgn_example eur_example [''Price'', ''Old''] [])
   \<and> (\<exists>ms. run_verification bgn_example eur_example [''Price'', ''Old''] = Results ms
          \<and> (\<forall>m \<in> set ms. Column m \<noteq> ''Old''))"
proof -
  have a: "''Old'' \<in> set [''Price'', ''Old'']" by simp
  have b: "strip ''Old'' \<notin> set (headers eur_example)"
    by (simp add: example_headers strip_def is_space_def)
  from a b missing_column_skipped [of "''Old''" "[''Price'', ''Old'']" bgn_example eur_example]
  show ?thesis by blast
qed

lemma distinct_rows_to_check: "distinct (rows_to_check bgn_ws eur_ws)"
  by (simp add: rows_to_check_def)

lemma example_max_rows: "max_row bgn_example = 6 \<and> max_row eur_example = 4"
  by (simp add: sheet_defs)

lemma example_rows: "rows_to_check bgn_example eur_example = [2, 3, 4, 5, 6]"
  by (simp add: sheet_defs upt_rec)

lemma example_run_price:
  "run_verification bgn_example eur_example [''Price''] = Results [example_record]"
  by (simp add: sheet_defs str_defs dec_defs upt_rec example_record_def)

lemma example_first_data_row:
  "verify_row (parse_decimal (cell_at (data_rows bgn_example ! 0) 2))
              (parse_decimal (cell_at (data_rows eur_example ! 0) 1))
     = (True, Some (Dec False 5113 (- 2)), Some (Dec False 5100 (- 2)))"
  by (simp add: sheet_defs str_defs dec_defs)

lemma cell_value_data_row:
  "2 \<le> r \<Longrightarrow> r \<le> max_row ws \<Longrightarrow> cell_value ws r c = cell_at (data_rows ws ! (r - 2)) c"
  by (simp add: cell_value_def)

text \<open>
  Claim C1, which the source does not bear out: the run over the two example
  worksheets finds its one mismatch in the first data row (index 0 of the data rows)
  and reports it with row number 2, the number of the worksheet row, not 1.
\<close>

theorem first_data_row_is_row_2_counterexample:
  "run_verification bgn_example eur_example [''Price''] = Results [example_record]
   \<and> Row example_record = 2
   \<and> Row example_record \<noteq> 1
   \<and> verify_row (parse_decimal (cell_at (data_rows bgn_example ! 0) 2))
                 (parse_decimal (cell_at (data_rows eur_example ! 0) 1))
       = (True, Some (Calculated_EUR example_record), Some (File_EUR example_record))"
  using example_run_price example_first_data_row by (simp add: example_record_def)

text \<open>
  Claim C1 as amended: the row number of every record is the number of the worksheet
  row of the two cells compared, the header being row 1. It lies between 2 and the
  last row of both worksheets, and the mismatch reported is the one of the data rows
  with index \<open>Row m - 2\<close>: the \<open>k\<close>-th data row is reported as row \<open>k + 1\<close>.
\<close>

theorem row_number_is_sheet_row:
  assumes "run_verification bgn_ws eur_ws selected_columns = Results ms"
    and "m \<in> set ms"
  shows "2 \<le> Row m \<and> Row m \<le> max_row bgn_ws \<and> Row m \<le> max_row eur_ws
         \<and> (\<exists>b_idx e_idx.
               (Column m, b_idx, e_idx) \<in> set (map_columns bgn_ws eur_ws selected_columns [])
               \<and> verify_row (parse_decimal (cell_at (data_rows bgn_ws ! (Row m - 2)) b_idx))
                             (parse_decimal (cell_at (data_rows eur_ws ! (Row m - 2)) e_idx))
                   = (True, Some (Calculated_EUR m), Some (File_EUR m)))"
proof -
  from assms(1) have "selected_columns \<noteq> []"
    by (auto simp add: run_verification_def)
  from run_verification_result [OF this, of bgn_ws eur_ws] assms obtain r entry
    where r: "r \<in> set (rows_to_check bgn_ws eur_ws)"
      and e: "entry \<in> set (map_columns bgn_ws eur_ws selected_columns [])"
      and rec: "record_of bgn_ws eur_ws r entry m"
    by auto
  obtain col_name b_idx e_idx where entry: "entry = (col_name, b_idx, e_idx)"
    by (cases entry)
  from rec entry record_of_rows [of bgn_ws eur_ws r col_name b_idx e_idx m]
  have rows: "Row m = r" "Column m = col_name" "r \<le> max_row bgn_ws" "r \<le> max_row eur_ws"
    by simp_all
  from r have r2: "2 \<le> r" by (simp add: set_rows_to_check)
  from rec entry have "verify_row (parse_decimal (cell_value bgn_ws r b_idx))
                      (parse_decimal (cell_value eur_ws r e_idx))
            = (True, Some (Calculated_EUR m), Some (File_EUR m))"
    by (simp add: record_of_def)
  with r2 rows have "verify_row (parse_decimal (cell_at (data_rows bgn_ws ! (Row m - 2)) b_idx))
                             (parse_decimal (cell_at (data_rows eur_ws ! (Row m - 2)) e_idx))
                   = (True, Some (Calculated_EUR m), Some (File_EUR m))"
    by (simp add: cell_value_data_row)
  with e entry rows r2 show ?thesis by auto
qed

theorem row_number_is_sheet_row_witness:
  "run_verification bgn_example eur_example [''Price''] = Results [example_record]
   \<and> example_record \<in> set [example_record]
   \<and> 2 \<le> Row example_record \<and> Row example_record \<le> max_row bgn_example
   \<and> Row example_record \<le> max_row eur_example
   \<and> (\<exists>b_idx e_idx.
         (Column example_record, b_idx, e_idx)
           \<in> set (map_columns bgn_example eur_example [''Price''] [])
         \<and> verify_row
             (parse_decimal (cell_at (data_rows bgn_example ! (Row example_record - 2)) b_idx))
             (parse_decimal (cell_at (data_rows eur_example ! (Row example_record - 2)) e_idx))
             = (True, Some (Calculated_EUR example_record), Some (File_EUR example_record)))"
proof -
  have a: "example_record \<in> set [example_record]" by simp
  from row_number_is_sheet_row [OF example_run_price a] example_run_price a
  show ?thesis by blast
qed

lemma dec_div_zero:
  "dec_div (Dec s 0 x) BGN_TO_EUR_DIVISOR = Inr (Dec s 0 (min (max (x + 5) Etiny) Emax))"
  by (simp add: BGN_TO_EUR_DIVISOR_def dec_fix_def)

lemma normalize_zero: "normalize_decimal (Dec s 0 x) = Inr (Dec s 0 (- 2))"
  by (simp add: normalize_decimal_def TWO_PLACES_def dec_fix_zero_two Etiny_def Emin_def Emax_def prec_def)

lemma dec_eq_zero_two: "dec_eq (Dec s 0 (- 2)) (Dec s' 0 (- 2)) = Inr True"
  by (simp add: signed_coeff_def)

text \<open>
  Claim C9. A cell holding the number 0 parses to the decimal 0, not to \<open>None\<close>. For a
  BGN value of zero, of any sign and exponent, the comparator computes the expected
  amount 0.00 and compares: it returns the triple of a match, which carries 0.00,
  when the EUR value rounds to 0.00, and a mismatch when it rounds to anything else;
  with no EUR value the expected 0.00 is still returned.
\<close>

theorem zero_is_a_valid_amount:
  "parse_decimal (Some (VInt 0)) = Some (Dec False 0 0)
   \<and> parse_decimal (Some (VInt 0)) \<noteq> parse_decimal None
   \<and> verify_row (Some (Dec s 0 x)) None = (False, Some (Dec s 0 (- 2)), None)
   \<and> (normalize_decimal e = Inr (Dec s' 0 (- 2)) \<longrightarrow>
         verify_row (Some (Dec s 0 x)) (Some e) = (False, Some (Dec s 0 (- 2)), None))
   \<and> (normalize_decimal e = Inr g \<and> dec_ne (Dec s 0 (- 2)) g = Inr True \<longrightarrow>
         verify_row (Some (Dec s 0 x)) (Some e) = (True, Some (Dec s 0 (- 2)), Some g))"
proof -
  have p: "parse_decimal (Some (VInt 0)) = Some (Dec False 0 0)"
    by (simp add: str_defs)
  have n: "normalize_decimal (Dec s 0 (min (max (x + 5) Etiny) Emax)) = Inr (Dec s 0 (- 2))"
    by (rule normalize_zero)
  show ?thesis
    by (simp add: p verify_row_def verify_row_body_def dec_div_zero n dec_ne_def
        dec_eq_zero_two signed_coeff_def split: sum.splits)
qed

theorem zero_is_a_valid_amount_witness:
  "parse_decimal (Some (VInt 0)) = Some (Dec False 0 0)
   \<and> normalize_decimal (Dec False 4 (- 3)) = Inr (Dec False 0 (- 2))
   \<and> verify_row (Some (Dec False 0 0)) (Some (Dec False 4 (- 3)))
       = (False, Some (Dec False 0 (- 2)), None)
   \<and> normalize_decimal (Dec False 1 0) = Inr (Dec False 100 (- 2))
   \<and> dec_ne (Dec False 0 (- 2)) (Dec False 100 (- 2)) = Inr True
   \<and> verify_row (Some (Dec False 0 0)) (Some (Dec False 1 0))
       = (True, Some (Dec False 0 (- 2)), Some (Dec False 100 (- 2)))"
proof -
  have a: "normalize_decimal (Dec False 4 (- 3)) = Inr (Dec False 0 (- 2))"
    by (simp add: dec_defs)
  have b: "normalize_decimal (Dec False 1 0) = Inr (Dec False 100 (- 2))"
    by (simp add: dec_defs)
  have c: "dec_ne (Dec False 0 (- 2)) (Dec False 100 (- 2)) = Inr True"
    by (simp add: dec_defs)
  from a b c
    zero_is_a_valid_amount [where s = False and x = 0 and e = "Dec False 4 (- 3)" and s' = False]
    zero_is_a_valid_amount [where s = False and x = 0 and e = "Dec False 1 0"
      and g = "Dec False 100 (- 2)"]
  show ?thesis by simp
qed

text \<open>
  Claim C10, where the source falls short. A cell with the text \<^verbatim>\<open>NaN\<close> parses to
  a quiet NaN, which division and \<^verbatim>\<open>quantize\<close> pass on without raising and which
  \<^verbatim>\<open>!=\<close> finds unequal to everything: the comparator reports a mismatch whose given
  amount is NaN, no decimal at two places. Every other reported amount is one
  (lemma \<open>verify_row_mismatch_shape\<close>).
\<close>

theorem nan_reported_as_mismatch:
  "parse_decimal (Some (VText ''NaN'')) = Some NaN
   \<and> verify_row (parse_decimal (Some (VInt 100))) (parse_decimal (Some (VText ''NaN'')))
       = (True, Some (Dec False 5113 (- 2)), Some NaN)
   \<and> verify_row (parse_decimal (Some (VText ''nan''))) (parse_decimal (Some (VText ''nan'')))
       = (True, Some NaN, Some NaN)
   \<and> \<not> two_places NaN"
  by (simp add: str_defs dec_defs two_places_def)
















lemma check_cell_records:
  "check_cell bgn_ws eur_ws r entry acc = Inr (acc @ cell_records bgn_ws eur_ws r entry)"
proof -
  obtain col_name b_idx e_idx where entry: "entry = (col_name, b_idx, e_idx)"
    by (cases entry)
  let ?b = "parse_decimal (cell_value bgn_ws r b_idx)"
  let ?e = "parse_decimal (cell_value eur_ws r e_idx)"
  obtain is_mismatch calc given where v: "verify_row ?b ?e = (is_mismatch, calc, given)"
    by (cases "verify_row ?b ?e")
  show ?thesis
  proof (cases is_mismatch)
    case False
    with v entry show ?thesis by (simp add: check_cell_def cell_records_def)
  next
    case True
    with v have v': "verify_row ?b ?e = (True, calc, given)" by simp
    from verify_row_mismatch_shape [OF v'] obtain c g
      where cg: "calc = Some c" "given = Some g" "amount_shape c" "amount_shape g" by blast
    from dec_sub_amounts [OF cg(3,4)] obtain d where d: "dec_sub c g = Inr d" by blast
    from v' cg d entry show ?thesis by (simp add: check_cell_def cell_records_def)
  qed
qed

lemma process_columns_records:
  "process_columns bgn_ws eur_ws r column_map acc
     = Inr (acc @ concat (map (cell_records bgn_ws eur_ws r) column_map))"
  by (induction column_map arbitrary: acc) (simp_all add: check_cell_records)

lemma process_rows_records:
  "process_rows bgn_ws eur_ws column_map rs acc
     = Inr (acc @ concat (map (\<lambda>r. concat (map (cell_records bgn_ws eur_ws r) column_map)) rs))"
  by (induction rs arbitrary: acc) (simp_all add: process_columns_records)

lemma run_verification_records:
  assumes "selected_columns \<noteq> []"
  shows "run_verification bgn_ws eur_ws selected_columns
           = Results (concat (map
               (\<lambda>r. concat (map (cell_records bgn_ws eur_ws r)
                                 (map_columns bgn_ws eur_ws selected_columns [])))
               [2 ..< Suc (max (max_row bgn_ws) (max_row eur_ws))]))"
  using assms by (simp add: run_verification_def process_rows_records rows_to_check_def)

lemma cell_records_beyond:
  assumes "max_row bgn_ws < r \<or> max_row eur_ws < r"
  shows "cell_records bgn_ws eur_ws r (col_name, b_idx, e_idx) = []"
proof -
  from assms have "parse_decimal (cell_value bgn_ws r b_idx) = None
           \<or> parse_decimal (cell_value eur_ws r e_idx) = None"
    by (auto simp add: cell_value_beyond)
  from check_cell_absent [OF this, of col_name "[]"] show ?thesis
    by (simp add: check_cell_records)
qed

text \<open>
  Claim C8. The run visits the worksheet rows 2 to
  \<open>max (max_row bgn_ws) (max_row eur_ws)\<close>, each once and in this order, and in each row
  the resolved columns: its result is the records of exactly these pairs of cells,
  no other row contributing. In a row beyond the last row of a worksheet every cell of
  that worksheet reads as empty: the pair is then no mismatch whatever the other
  worksheet holds, it contributes no record, and nothing is raised.
\<close>

theorem rows_scanned_and_padding:
  "(selected_columns \<noteq> [] \<longrightarrow>
      run_verification bgn_ws eur_ws selected_columns
        = Results (concat (map
            (\<lambda>r. concat (map (cell_records bgn_ws eur_ws r)
                              (map_columns bgn_ws eur_ws selected_columns [])))
            [2 ..< Suc (max (max_row bgn_ws) (max_row eur_ws))])))
   \<and> rows_to_check bgn_ws eur_ws = [2 ..< Suc (max (max_row bgn_ws) (max_row eur_ws))]
   \<and> set (rows_to_check bgn_ws eur_ws)
       = {r. 2 \<le> r \<and> r \<le> max (max_row bgn_ws) (max_row eur_ws)}
   \<and> distinct (rows_to_check bgn_ws eur_ws)
   \<and> (max_row bgn_ws < r \<longrightarrow>
         cell_value bgn_ws r b_idx = None
         \<and> verify_row (parse_decimal (cell_value bgn_ws r b_idx)) eur_val = (False, None, None))
   \<and> (max_row eur_ws < r \<longrightarrow>
         cell_value eur_ws r e_idx = None
         \<and> fst (verify_row bgn_val (parse_decimal (cell_value eur_ws r e_idx))) = False)
   \<and> (max_row bgn_ws < r \<or> max_row eur_ws < r \<longrightarrow>
         cell_records bgn_ws eur_ws r (col_name, b_idx, e_idx) = []
         \<and> check_cell bgn_ws eur_ws r (col_name, b_idx, e_idx) mismatches = Inr mismatches)"
proof -
  have run: "selected_columns \<noteq> [] \<longrightarrow>
      run_verification bgn_ws eur_ws selected_columns
        = Results (concat (map
            (\<lambda>r. concat (map (cell_records bgn_ws eur_ws r)
                              (map_columns bgn_ws eur_ws selected_columns [])))
            [2 ..< Suc (max (max_row bgn_ws) (max_row eur_ws))]))"
    using run_verification_records by blast
  have pad: "max_row bgn_ws < r \<or> max_row eur_ws < r \<longrightarrow>
         cell_records bgn_ws eur_ws r (col_name, b_idx, e_idx) = []
         \<and> check_cell bgn_ws eur_ws r (col_name, b_idx, e_idx) mismatches = Inr mismatches"
    using cell_records_beyond by (simp add: check_cell_records)
  have rows: "rows_to_check bgn_ws eur_ws = [2 ..< Suc (max (max_row bgn_ws) (max_row eur_ws))]"
    by (simp add: rows_to_check_def)
  have p1: "max_row bgn_ws < r \<longrightarrow>
         cell_value bgn_ws r b_idx = None
         \<and> verify_row (parse_decimal (cell_value bgn_ws r b_idx)) eur_val = (False, None, None)"
    by (simp add: cell_value_beyond verify_row_None)
  have p2: "max_row eur_ws < r \<longrightarrow>
         cell_value eur_ws r e_idx = None
         \<and> fst (verify_row bgn_val (parse_decimal (cell_value eur_ws r e_idx))) = False"
    by (simp add: cell_value_beyond verify_row_eur_None)
  note set_rows_to_check [of bgn_ws eur_ws] distinct_rows_to_check [of bgn_ws eur_ws]
  with run rows p1 p2 pad show ?thesis by (intro conjI)
qed

lemma example_records_row_2: "cell_records bgn_example eur_example 2 (''Price'', 2, 1) = [example_record]"
  by (simp add: cell_records_def sheet_defs str_defs dec_defs example_record_def)

theorem rows_scanned_and_padding_witness:
  "[''Price'', ''Old''] \<noteq> []
   \<and> max_row bgn_example = 6 \<and> max_row eur_example = 4
   \<and> run_verification bgn_example eur_example [''Price'', ''Old'']
       = Results (concat (map
           (\<lambda>r. concat (map (cell_records bgn_example eur_example r)
                             (map_columns bgn_example eur_example [''Price'', ''Old''] [])))
           [2 ..< Suc (max 6 4)]))
   \<and> run_verification bgn_example eur_example [''Price'', ''Old''] = Results [example_record]
   \<and> cell_records bgn_example eur_example 2 (''Price'', 2, 1) = [example_record]
   \<and> rows_to_check bgn_example eur_example = [2, 3, 4, 5, 6]
   \<and> cell_value eur_example 6 1 = None
   \<and> cell_value bgn_example 6 2 = Some (VInt 0)
   \<and> cell_records bgn_example eur_example 6 (''Price'', 2, 1) = []
   \<and> check_cell bgn_example eur_example 6 (''Price'', 2, 1) [] = Inr []
   \<and> cell_value bgn_example 7 2 = None
   \<and> verify_row (parse_decimal (cell_value bgn_example 7 2)) (Some (Dec False 1 0))
       = (False, None, None)"
proof -
  note mr = example_max_rows
  have a: "max_row eur_example < 6" "max_row bgn_example < 7" by (simp_all add: mr)
  have b: "cell_value bgn_example 6 2 = Some (VInt 0)" by (simp add: sheet_defs)
  have c: "[''Price'', ''Old''] \<noteq> []" by simp
  from a b c mr example_rows example_run example_records_row_2
    rows_scanned_and_padding [where bgn_ws = bgn_example and eur_ws = eur_example and r = 6
      and b_idx = 2 and e_idx = 1 and col_name = "''Price''" and mismatches = "[]"
      and selected_columns = "[''Price'', ''Old'']"]
    rows_scanned_and_padding [where bgn_ws = bgn_example and eur_ws = eur_example and r = 7
      and b_idx = 2 and eur_val = "Some (Dec False 1 0)"]
  show ?thesis by (simp add: verify_row_None example_record_def)
qed

end
